theory Spec2Isabelle
  imports Complex_Main "HOL-Library.Sublist" "HOL-Library.Log_Nat"
begin

section \<open>Data model of the camera uploader component\<close>

text \<open>
  The component \<^verbatim>\<open>CameraUploadComponent\<close> (camera-uploader.tsx) keeps a list of
  \<^verbatim>\<open>FileObject\<close>s, a camera flag and a media stream in React state. The embedding
  passes that state explicitly; everything the component does to the outside world
  (console output, alerts, the \<^verbatim>\<open>onFilesChange\<close> and \<^verbatim>\<open>onUpload\<close> callbacks,
  object URLs, media tracks, the preview element) is returned as a list of effects,
  in the order in which they happen.
\<close>

text \<open>
  The browser's \<^verbatim>\<open>File\<close>: \<^verbatim>\<open>name\<close>, \<^verbatim>\<open>size\<close>, \<^verbatim>\<open>type\<close>, and a handle
  standing for its bytes (two files with equal metadata are still different files).
\<close>

record rawFile =
  fileName :: string
  fileSize :: nat
  fileType :: string
  fileBytes :: nat

text \<open>
  \<^verbatim>\<open>interface FileObject { file; id; preview; name; size; type }\<close>. The fields
  \<^verbatim>\<open>file\<close>, \<^verbatim>\<open>id\<close>, \<^verbatim>\<open>name\<close>, \<^verbatim>\<open>size\<close> and \<^verbatim>\<open>type\<close> are written
  \<open>fileOf\<close>, \<open>ident\<close>, \<open>objName\<close>, \<open>objSize\<close> and \<open>objType\<close>.
\<close>

record FileObject =
  fileOf :: rawFile
  ident :: string
  preview :: string
  objName :: string
  objSize :: nat
  objType :: string

text \<open>What awaiting \<^verbatim>\<open>onUpload(files)\<close> ends in: it returns, or it throws (rejects).\<close>

datatype uploadResult = Fulfilled | Rejected string

text \<open>
  \<^verbatim>\<open>CameraUploadComponentProps\<close>. \<open>onFilesChange\<close> says whether the optional
  observer is supplied; \<open>onUpload\<close> is the optional upload callback, given by its
  outcome on each pending set. The numbers are JavaScript numbers, read as integers.
\<close>

record props =
  onFilesChange :: bool
  onUpload :: "(FileObject list \<Rightarrow> uploadResult) option"
  maxFileSize :: int
  acceptedTypes :: "string list"
  maxFiles :: int

text \<open>The React state of the component. A media stream is named by a number.\<close>

record component =
  files :: "FileObject list"
  showCamera :: bool
  stream :: "nat option"
  isUploading :: bool

datatype effect =
    ConsoleWarn string
  | ConsoleError string
  | ConsoleLog string
  | Alert string
  | FilesChanged "FileObject list"
  | UploadCalled "FileObject list"
  | RevokeObjectURL string
  | GetUserMedia bool
  | SetTimeout nat
  | TracksStopped nat
  | PreviewBound nat
  | DrawImage
  | ToBlob

section \<open>JavaScript library functions\<close>

text \<open>
  \<^verbatim>\<open>xs.slice(0, end)\<close> on arrays and strings: a negative \<^verbatim>\<open>end\<close> counts from the
  end of \<^verbatim>\<open>xs\<close>, and the result is clamped to \<^verbatim>\<open>xs\<close>.
\<close>

definition slice0 :: "int \<Rightarrow> 'a list \<Rightarrow> 'a list" where
  "slice0 end xs =
     take (nat (if end < 0 then max (int (length xs) + end) 0
                else min end (int (length xs)))) xs"

definition digitChar :: "nat \<Rightarrow> char" where
  "digitChar d = ''0123456789'' ! d"

text \<open>The decimal digits of a natural number, as string conversion prints them.\<close>

function decimal :: "nat \<Rightarrow> string" where
  "decimal n =
     (if n < 10 then [digitChar n] else decimal (n div 10) @ [digitChar (n mod 10)])"
  by pat_completeness auto
termination
  by (relation "measure id") auto

declare decimal.simps [simp del]

definition intString :: "int \<Rightarrow> string" where
  "intString i = (if i < 0 then CHR ''-'' # decimal (nat (- i)) else decimal (nat i))"

section \<open>formatFileSize\<close>

text \<open>
  \<^verbatim>\<open>Math.floor(Math.log(bytes) / Math.log(k))\<close>, with the logarithm read as the
  exact real logarithm. The double-precision quotient of the source agrees with it
  on the byte counts evaluated below; it can round up to the next integer for a
  byte count just below a power of 1024, from \<open>1024 ^ 5\<close> on.
\<close>

definition floorLog :: "nat \<Rightarrow> nat \<Rightarrow> nat" where
  "floorLog k bytes = nat \<lfloor>ln (real bytes) / ln (real k)\<rfloor>"

text \<open>
  \<^verbatim>\<open>(num / den).toFixed(2)\<close>, as a number of hundredths: the nearest hundredth, the
  larger one on a tie. For a byte count below \<open>2 ^ 53\<close> and a power of 1024 the
  quotient is exact in double precision, so this is the value \<^verbatim>\<open>toFixed\<close> rounds.
\<close>

definition toFixed2 :: "nat \<Rightarrow> nat \<Rightarrow> nat" where
  "toFixed2 num den = (200 * num + den) div (2 * den)"

text \<open>
  \<^verbatim>\<open>parseFloat(s) + ' '\<close> for the two-decimal string \<^verbatim>\<open>s\<close> of \<open>h\<close> hundredths:
  the number is printed without trailing zeros.
\<close>

definition numberString :: "nat \<Rightarrow> string" where
  "numberString h =
     decimal (h div 100) @
     (if h mod 100 = 0 then []
      else CHR ''.'' # digitChar (h mod 100 div 10) #
           (if h mod 10 = 0 then [] else [digitChar (h mod 10)]))"

text \<open>
  \<^verbatim>\<open>formatFileSize\<close> (lines 267-273). \<^verbatim>\<open>sizes[i]\<close> past the end of the table is
  \<^verbatim>\<open>undefined\<close>, which string concatenation prints as \<^verbatim>\<open>undefined\<close>.
\<close>

definition formatFileSize :: "nat \<Rightarrow> string" where
  "formatFileSize bytes =
     (if bytes = 0 then ''0 Bytes''
      else
        let k = 1024;
            sizes = [''Bytes'', ''KB'', ''MB'', ''GB''];
            i = floorLog k bytes
        in numberString (toFixed2 bytes (k ^ i)) @ '' '' @
           (if i < length sizes then sizes ! i else ''undefined''))"

text \<open>
  The reading of the specification: the same, with the unit index clamped to the
  table of units.
\<close>

definition formatSize_spec :: "nat \<Rightarrow> string" where
  "formatSize_spec bytes =
     (if bytes = 0 then ''0 Bytes''
      else
        let sizes = [''Bytes'', ''KB'', ''MB'', ''GB''];
            i = min (floorLog 1024 bytes) (length sizes - 1)
        in numberString (toFixed2 bytes (1024 ^ i)) @ '' '' @ sizes ! i)"

section \<open>The intake validator\<close>

text \<open>\<^verbatim>\<open>isValidFileType\<close> (lines 44-51).\<close>

definition isValidFileType :: "props \<Rightarrow> rawFile \<Rightarrow> bool" where
  "isValidFileType p f =
     list_ex (\<lambda>t. if suffix ''/*'' t then prefix (slice0 (- 1) t) (fileType f)
                   else fileType f = t)
       (acceptedTypes p)"

text \<open>
  The pattern rule as the specification words it: exact equality, or, for a pattern
  ending in \<^verbatim>\<open>/*\<close>, the file type starts with the pattern up to the star.
\<close>

definition matches_spec :: "string \<Rightarrow> string \<Rightarrow> bool" where
  "matches_spec t ty = (ty = t \<or> (suffix ''/*'' t \<and> prefix (butlast t) ty))"

text \<open>
  The callback of \<^verbatim>\<open>fileArray.filter\<close> (lines 58-70): whether the file is kept,
  and the warning it logs.
\<close>

definition typeRejection :: "rawFile \<Rightarrow> effect" where
  "typeRejection f = ConsoleWarn (''File '' @ fileName f @ '' is not a supported type'')"

definition sizeRejection :: "rawFile \<Rightarrow> effect" where
  "sizeRejection f =
     ConsoleWarn (''File '' @ fileName f @ '' is too large ('' @
       formatFileSize (fileSize f) @ '')'')"

definition validateFile :: "props \<Rightarrow> rawFile \<Rightarrow> bool \<times> effect list" where
  "validateFile p f =
     (if \<not> isValidFileType p f then (False, [typeRejection f])
      else if int (fileSize f) > maxFileSize p then (False, [sizeRejection f])
      else (True, []))"

definition limitRejection :: "nat \<Rightarrow> int \<Rightarrow> effect" where
  "limitRejection n m =
     ConsoleWarn (''Only adding '' @ decimal n @
       '' files due to maximum limit of '' @ intString m)"

text \<open>
  The \<^verbatim>\<open>FileObject\<close> built for the \<open>k\<close>-th file to add (lines 80-87). \<open>rnd k\<close> is
  what \<^verbatim>\<open>Math.random().toString(36).substr(2, 9)\<close> yields for it and \<open>url k\<close> what
  \<^verbatim>\<open>URL.createObjectURL\<close> returns: both come from the environment.
\<close>

definition fileObject :: "(nat \<Rightarrow> string) \<Rightarrow> (nat \<Rightarrow> string) \<Rightarrow> nat \<times> rawFile \<Rightarrow> FileObject" where
  "fileObject rnd url kf =
     (case kf of (k, f) \<Rightarrow>
       \<lparr>fileOf = f, ident = rnd k, preview = url k,
        objName = fileName f, objSize = fileSize f, objType = fileType f\<rparr>)"

text \<open>
  \<^verbatim>\<open>handleFiles\<close> (lines 54-94). \<open>filesLength\<close> is the \<^verbatim>\<open>files.length\<close> the
  callback closed over when it was rendered; the state updater of \<^verbatim>\<open>setFiles\<close>
  appends to the state current at the call.
\<close>

definition handleFiles ::
  "props \<Rightarrow> nat \<Rightarrow> (nat \<Rightarrow> string) \<Rightarrow> (nat \<Rightarrow> string) \<Rightarrow> rawFile list \<Rightarrow> component
     \<Rightarrow> component \<times> effect list" where
  "handleFiles p filesLength rnd url newFiles st =
     (let fileArray = newFiles;
          validFiles = filter (\<lambda>f. fst (validateFile p f)) fileArray;
          warnings = concat (map (\<lambda>f. snd (validateFile p f)) fileArray);
          remainingSlots = maxFiles p - int filesLength;
          filesToAdd = slice0 remainingSlots validFiles;
          limitWarning =
            (if length filesToAdd < length validFiles
             then [limitRejection (length filesToAdd) (maxFiles p)] else []);
          fileObjects = map (fileObject rnd url) (enumerate 0 filesToAdd);
          updatedFiles = files st @ fileObjects
      in (st\<lparr>files := updatedFiles\<rparr>,
          warnings @ limitWarning @
          (if onFilesChange p then [FilesChanged updatedFiles] else [])))"

text \<open>
  A call of \<^verbatim>\<open>handleFiles\<close> through the handler of the latest render: the closure's
  \<^verbatim>\<open>files.length\<close> is the length of the current pending set. A batch comes with the
  identifiers and object URLs the environment hands out for it.
\<close>

type_synonym batch = "(nat \<Rightarrow> string) \<times> (nat \<Rightarrow> string) \<times> rawFile list"

definition accept :: "props \<Rightarrow> batch \<Rightarrow> component \<Rightarrow> component \<times> effect list" where
  "accept p b st =
     (case b of (rnd, url, newFiles) \<Rightarrow>
        handleFiles p (length (files st)) rnd url newFiles st)"

fun acceptAll :: "props \<Rightarrow> component \<Rightarrow> batch list \<Rightarrow> component" where
  "acceptAll p st [] = st"
| "acceptAll p st (b # bs) = acceptAll p (fst (accept p b st)) bs"

text \<open>The entries a call added: those past the old end of the pending set.\<close>

definition added :: "component \<Rightarrow> component \<Rightarrow> FileObject list" where
  "added st st' = drop (length (files st)) (files st')"

text \<open>\<^verbatim>\<open>removeFile\<close> (lines 253-264).\<close>

definition removeFile :: "props \<Rightarrow> string \<Rightarrow> component \<Rightarrow> component \<times> effect list" where
  "removeFile p i st =
     (let prev = files st;
          fileToRemove = find (\<lambda>f. ident f = i) prev;
          revoked = (case fileToRemove of
                       Some f \<Rightarrow> [RevokeObjectURL (preview f)]
                     | None \<Rightarrow> []);
          updatedFiles = filter (\<lambda>f. ident f \<noteq> i) prev
      in (st\<lparr>files := updatedFiles\<rparr>,
          revoked @ (if onFilesChange p then [FilesChanged updatedFiles] else [])))"

text \<open>\<^verbatim>\<open>handleUpload\<close> (lines 276-294).\<close>

definition handleUpload :: "props \<Rightarrow> component \<Rightarrow> component \<times> effect list" where
  "handleUpload p st =
     (if length (files st) = 0 then (st, [])
      else
        (st\<lparr>isUploading := False\<rparr>,
         (case onUpload p of
            Some f \<Rightarrow>
              UploadCalled (files st) #
              (case f (files st) of
                 Fulfilled \<Rightarrow> []
               | Rejected e \<Rightarrow>
                   [ConsoleError (''Upload error: '' @ e),
                    Alert ''Upload failed. Please try again.''])
          | None \<Rightarrow>
              [ConsoleLog ''Files to upload:'',
               Alert (''Ready to upload '' @ decimal (length (files st)) @ '' file(s)'')])))"

section \<open>The camera session\<close>

text \<open>
  The preview \<^verbatim>\<open><video>\<close> element is rendered only while \<^verbatim>\<open>showCamera\<close> holds
  (line 314), so \<^verbatim>\<open>videoRef.current\<close> is non-null exactly then; the canvas is
  always rendered (line 381).
\<close>

definition videoMounted :: "component \<Rightarrow> bool" where
  "videoMounted st = showCamera st"

text \<open>
  \<^verbatim>\<open>startCamera\<close> (lines 133-201) runs in pieces, one per turn of the event loop.
  First the part up to the \<^verbatim>\<open>await\<close>: \<open>supported\<close> says whether
  \<^verbatim>\<open>navigator.mediaDevices.getUserMedia\<close> exists.
\<close>

definition startCamera :: "bool \<Rightarrow> component \<Rightarrow> component \<times> effect list" where
  "startCamera supported st =
     (if supported then (st\<lparr>showCamera := True\<rparr>, [GetUserMedia True])
      else (st, [Alert ''Camera access is not supported in this browser.'']))"

text \<open>The continuation when \<^verbatim>\<open>getUserMedia\<close> resolves (lines 153-161).\<close>

definition startCamera_resolved :: "nat \<Rightarrow> component \<Rightarrow> component \<times> effect list" where
  "startCamera_resolved mediaStream st = (st\<lparr>stream := Some mediaStream\<rparr>, [SetTimeout mediaStream])"

text \<open>The callback of \<^verbatim>\<open>setTimeout\<close> (lines 157-160 and 186-189).\<close>

definition startCamera_timeout :: "nat \<Rightarrow> component \<Rightarrow> component \<times> effect list" where
  "startCamera_timeout mediaStream st =
     (st, if videoMounted st then [PreviewBound mediaStream] else [])"

datatype acquisitionError =
    NotAllowedError
  | NotFoundError
  | NotSupportedError
  | OverconstrainedError
  | OtherError string
  | NotAnError

text \<open>The \<^verbatim>\<open>catch\<close> block up to its own \<^verbatim>\<open>await\<close> (lines 163-200).\<close>

definition startCamera_rejected :: "acquisitionError \<Rightarrow> component \<Rightarrow> component \<times> effect list" where
  "startCamera_rejected err st =
     (st\<lparr>showCamera := False\<rparr>,
      ConsoleError ''Error accessing camera:'' #
      (case err of
         NotAllowedError \<Rightarrow>
           [Alert ''Camera access denied. Please allow camera permissions and try again.'']
       | NotFoundError \<Rightarrow> [Alert ''No camera found on this device.'']
       | NotSupportedError \<Rightarrow> [Alert ''Camera is not supported on this device.'']
       | OverconstrainedError \<Rightarrow> [GetUserMedia False]
       | OtherError m \<Rightarrow> [Alert (''Camera error: '' @ m)]
       | NotAnError \<Rightarrow> [Alert ''Unable to access camera. Please check permissions.'']))"

definition fallback_resolved :: "nat \<Rightarrow> component \<Rightarrow> component \<times> effect list" where
  "fallback_resolved fallbackStream st =
     (st\<lparr>stream := Some fallbackStream, showCamera := True\<rparr>, [SetTimeout fallbackStream])"

definition fallback_rejected :: "component \<Rightarrow> component \<times> effect list" where
  "fallback_rejected st = (st, [Alert ''Unable to access camera with any settings.''])"

text \<open>
  \<^verbatim>\<open>stopCamera\<close> (lines 203-209). \<open>closureStream\<close> is the \<^verbatim>\<open>stream\<close> the callback
  closed over when it was rendered.
\<close>

definition stopCamera :: "nat option \<Rightarrow> component \<Rightarrow> component \<times> effect list" where
  "stopCamera closureStream st =
     (case closureStream of
        Some s \<Rightarrow> (st\<lparr>stream := None, showCamera := False\<rparr>, [TracksStopped s])
      | None \<Rightarrow> (st\<lparr>showCamera := False\<rparr>, []))"

text \<open>
  What a capture finds in the browser: whether the canvas gives a 2D context, the
  frame dimensions of the video, what \<^verbatim>\<open>toBlob\<close> hands to its callback (a blob,
  by handle and size, or \<^verbatim>\<open>null\<close>), and the time stamp with \<^verbatim>\<open>:\<close> and \<^verbatim>\<open>.\<close>
  replaced by dashes.
\<close>

record captureEnv =
  context2d :: bool
  videoWidth :: nat
  videoHeight :: nat
  toBlobResult :: "(nat \<times> nat) option"
  timestamp :: string

text \<open>
  \<^verbatim>\<open>capturePhoto\<close> (lines 211-250) up to the call of \<^verbatim>\<open>canvas.toBlob\<close>, which
  hands the frame to a callback that runs in a later turn of the event loop.
\<close>

definition capturePhoto :: "captureEnv \<Rightarrow> component \<Rightarrow> component \<times> effect list" where
  "capturePhoto env st =
     (if videoMounted st then
        if \<not> context2d env then
          (st, [ConsoleError ''Unable to get canvas context'',
                Alert ''Unable to capture photo. Canvas not supported.''])
        else if videoWidth env = 0 \<or> videoHeight env = 0 then
          (st, [Alert ''Camera not ready yet. Please wait a moment and try again.''])
        else (st, [DrawImage, ToBlob])
      else (st, []))"

text \<open>
  Whether an effect is the call of \<^verbatim>\<open>onFilesChange\<close>, which the updater of
  \<^verbatim>\<open>setFiles\<close> makes.
\<close>

fun isFilesChanged :: "effect \<Rightarrow> bool" where
  "isFilesChanged (FilesChanged fs) = True"
| "isFilesChanged e = False"

text \<open>
  The callback of \<^verbatim>\<open>toBlob\<close> (lines 237-248). It runs on the state current when
  the blob is ready, with the \<^verbatim>\<open>handleFiles\<close> and \<^verbatim>\<open>stopCamera\<close> that
  \<^verbatim>\<open>capturePhoto\<close> closed over at the click: \<open>filesLength\<close> and \<open>closureStream\<close>
  are the \<^verbatim>\<open>files.length\<close> and the \<^verbatim>\<open>stream\<close> of that render. React runs
  the updater that \<^verbatim>\<open>handleFiles\<close> hands to \<^verbatim>\<open>setFiles\<close> when it processes the
  update, after the callback has gone on to \<^verbatim>\<open>stopCamera\<close>: the warnings of
  \<^verbatim>\<open>handleFiles\<close> come first, then the effects of \<^verbatim>\<open>stopCamera\<close>, then the call of
  \<^verbatim>\<open>onFilesChange\<close>.
\<close>

definition toBlobCallback ::
  "props \<Rightarrow> nat \<Rightarrow> nat option \<Rightarrow> captureEnv \<Rightarrow> (nat \<Rightarrow> string) \<Rightarrow> (nat \<Rightarrow> string)
     \<Rightarrow> component \<Rightarrow> component \<times> effect list" where
  "toBlobCallback p filesLength closureStream env rnd url st =
     (case toBlobResult env of
        Some (blob, n) \<Rightarrow>
          let capture = \<lparr>fileName = ''camera-capture-'' @ timestamp env @ ''.jpg'',
                         fileSize = n, fileType = ''image/jpeg'', fileBytes = blob\<rparr>;
              r1 = handleFiles p filesLength rnd url [capture] st;
              r2 = stopCamera closureStream (fst r1)
          in (fst r2,
              filter (\<lambda>e. \<not> isFilesChanged e) (snd r1) @ snd r2 @
              filter isFilesChanged (snd r1))
      | None \<Rightarrow> (st, [Alert ''Failed to capture photo. Please try again.'']))"

text \<open>A session is live when the modal is shown and a stream is held.\<close>

definition live :: "component \<Rightarrow> bool" where
  "live st = (showCamera st \<and> stream st \<noteq> None)"

definition idle :: component where
  "idle = \<lparr>files = [], showCamera = False, stream = None, isUploading = False\<rparr>"

section \<open>Example inputs\<close>

text \<open>
  The configuration of the demonstration page (\<^verbatim>\<open>src/app/page.tsx\<close>: images only,
  5 MiB), with room for two files, and a few files to feed it.
\<close>

definition imageProps :: props where
  "imageProps =
     \<lparr>onFilesChange = True, onUpload = None, maxFileSize = 5242880,
      acceptedTypes = [''image/*''], maxFiles = 2\<rparr>"

definition png :: "nat \<Rightarrow> rawFile" where
  "png k = \<lparr>fileName = ''a.png'', fileSize = 2048, fileType = ''image/png'', fileBytes = k\<rparr>"

definition pdf :: rawFile where
  "pdf = \<lparr>fileName = ''doc.pdf'', fileSize = 2048, fileType = ''application/pdf'', fileBytes = 0\<rparr>"

definition hugePng :: rawFile where
  "hugePng = \<lparr>fileName = ''big.png'', fileSize = 5242881, fileType = ''image/png'', fileBytes = 0\<rparr>"

definition fullPng :: rawFile where
  "fullPng = \<lparr>fileName = ''full.png'', fileSize = 5242880, fileType = ''image/png'', fileBytes = 0\<rparr>"

text \<open>
  Identifiers and object URLs from the environment: fresh on every draw, or, for the
  identifiers, the same string on every draw (\<^verbatim>\<open>Math.random()\<close> returning 0.5
  gives \<^verbatim>\<open>0.i\<close> in base 36, and \<^verbatim>\<open>substr(2, 9)\<close> of that is \<^verbatim>\<open>i\<close>).
\<close>

definition freshId :: "nat \<Rightarrow> nat \<Rightarrow> string" where
  "freshId call k = ''r'' @ decimal call @ ''x'' @ decimal k"

definition stuckId :: "nat \<Rightarrow> string" where
  "stuckId k = ''i''"

definition blobUrl :: "nat \<Rightarrow> nat \<Rightarrow> string" where
  "blobUrl call k = ''blob:'' @ decimal call @ ''/'' @ decimal k"

text \<open>
  A pending entry for \<open>png k\<close> with a given identifier; a pending set of two such
  entries; a live camera session; two
  captures on it, one without a 2D context and one before the first frame; an upload
  callback that always throws; and the state after a start of the camera that was
  cancelled before \<^verbatim>\<open>getUserMedia\<close> resolved.
\<close>

definition shot :: "nat \<Rightarrow> string \<Rightarrow> FileObject" where
  "shot k i = fileObject (\<lambda>_. i) (blobUrl 0) (k, png k)"

definition twoPending :: component where
  "twoPending = idle\<lparr>files := [shot 0 ''a'', shot 1 ''b'']\<rparr>"

definition liveSession :: component where
  "liveSession = idle\<lparr>showCamera := True, stream := Some 0\<rparr>"

definition noContextEnv :: captureEnv where
  "noContextEnv =
     \<lparr>context2d = False, videoWidth = 0, videoHeight = 0, toBlobResult = None,
      timestamp = ''2025-01-01T00-00-00-000Z''\<rparr>"

definition notReadyEnv :: captureEnv where
  "notReadyEnv =
     \<lparr>context2d = True, videoWidth = 0, videoHeight = 720, toBlobResult = Some (0, 4096),
      timestamp = ''2025-01-01T00-00-00-000Z''\<rparr>"

definition failingProps :: props where
  "failingProps = imageProps\<lparr>onUpload := Some (\<lambda>_. Rejected ''offline'')\<rparr>"

definition cancelledWhileAcquiring :: component where
  "cancelledWhileAcquiring =
     fst (stopCamera (stream (fst (startCamera True idle))) (fst (startCamera True idle)))"

text \<open>
  A capture with everything in place, and a live session that holds one pending
  file, so that one slot is left under \<open>imageProps\<close>.
\<close>

definition readyEnv :: "nat \<Rightarrow> captureEnv" where
  "readyEnv k =
     \<lparr>context2d = True, videoWidth = 1280, videoHeight = 720, toBlobResult = Some (k, 4096),
      timestamp = ''2025-01-01T00-00-00-000Z''\<rparr>"

definition oneSlotLeft :: component where
  "oneSlotLeft = liveSession\<lparr>files := [shot 0 ''a'']\<rparr>"

text \<open>
  The file a capture under \<open>readyEnv k\<close> produces, and the state after two captures
  that were both requested in the render of \<open>oneSlotLeft\<close>: their callbacks run one
  after the other, each with the \<^verbatim>\<open>files.length = 1\<close> and the stream of that render.
\<close>

definition snapshot :: "nat \<Rightarrow> rawFile" where
  "snapshot k =
     \<lparr>fileName = ''camera-capture-2025-01-01T00-00-00-000Z.jpg'', fileSize = 4096,
      fileType = ''image/jpeg'', fileBytes = k\<rparr>"

definition doubleCapture :: component where
  "doubleCapture =
     fst (toBlobCallback imageProps 1 (Some 0) (readyEnv 2) (freshId 2) (blobUrl 2)
       (fst (toBlobCallback imageProps 1 (Some 0) (readyEnv 1) (freshId 1) (blobUrl 1)
          oneSlotLeft)))"

section \<open>Evaluating the library functions\<close>

lemma decimal_digit: "n < 10 \<Longrightarrow> decimal n = [digitChar n]"
  by (subst decimal.simps) simp

lemma decimal_step: "10 \<le> n \<Longrightarrow> decimal n = decimal (n div 10) @ [digitChar (n mod 10)]"
  by (subst decimal.simps) simp

lemma slice0_nonneg: "0 \<le> e \<Longrightarrow> slice0 e xs = take (nat e) xs"
  by (cases "e \<le> int (length xs)") (simp_all add: slice0_def min_def)

lemma slice0_minus_one: "slice0 (- 1) xs = butlast xs"
  by (simp add: slice0_def butlast_conv_take nat_diff_distrib' max_def)

lemma length_slice0: "0 \<le> e \<Longrightarrow> int (length (slice0 e xs)) \<le> e"
  by (simp add: slice0_nonneg)

lemma set_slice0: "set (slice0 e xs) \<subseteq> set xs"
  by (simp add: slice0_def set_take_subset)

text \<open>The unit index is the largest \<open>i\<close> with \<open>k ^ i \<le> bytes\<close>.\<close>

lemma floorLog_eqI:
  assumes "2 \<le> k" "k ^ i \<le> b" "b < k ^ Suc i"
  shows "floorLog k b = i"
proof -
  have "\<lfloor>log (real k) (real b)\<rfloor> = int i"
    using assms by (intro floor_log_nat_eq_if) simp_all
  then show ?thesis
    by (simp add: floorLog_def log_def)
qed

lemma floorLog_code [code]: "floorLog k b = floorlog k b - 1"
proof (cases "1 < k")
  case True
  then show ?thesis
    by (simp add: floorLog_def floorlog_def log_def)
next
  case False
  then have "k = 0 \<or> k = 1" by arith
  then show ?thesis
    by (auto simp: floorLog_def floorlog_def)
qed

lemma floorLog_1024: "floorLog 1024 1024 = 1"
  by (rule floorLog_eqI) simp_all

lemma floorLog_1536: "floorLog 1024 1536 = 1"
  by (rule floorLog_eqI) simp_all

lemma floorLog_10MiB: "floorLog 1024 10485760 = 2"
  by (rule floorLog_eqI) simp_all

lemma floorLog_1TiB: "floorLog 1024 1099511627776 = 4"
  by (rule floorLog_eqI) simp_all

lemmas formatFileSize_eval =
  formatFileSize_def formatSize_spec_def toFixed2_def numberString_def
  decimal_digit decimal_step digitChar_def

section \<open>formatFileSize: the unit table\<close>

text \<open>
  C4. \<^verbatim>\<open>formatFileSize\<close> formats 0 as \<^verbatim>\<open>0 Bytes\<close>, 1024 as \<^verbatim>\<open>1 KB\<close>, 1536 as
  \<^verbatim>\<open>1.5 KB\<close> and 10 MiB as \<^verbatim>\<open>10 MB\<close>, as claimed. The unit index is not
  clamped to the table of units, though: at 1024 ^ 4 bytes the index is 4, past the
  last unit, and the result is \<^verbatim>\<open>1 undefined\<close>, where the clamped index of the
  specification gives \<^verbatim>\<open>1024 GB\<close>.
\<close>

theorem formatFileSize_unit_index_not_clamped:
  "formatFileSize 0 = ''0 Bytes'' \<and>
   formatFileSize 1024 = ''1 KB'' \<and>
   formatFileSize 1536 = ''1.5 KB'' \<and>
   formatFileSize (10 * 1024 * 1024) = ''10 MB'' \<and>
   formatFileSize 1099511627776 = ''1 undefined'' \<and>
   formatSize_spec 1099511627776 = ''1024 GB''"
proof -
  have "formatFileSize 0 = ''0 Bytes''"
    by (simp add: formatFileSize_def)
  moreover have "formatFileSize 1024 = ''1 KB''"
    by (simp add: formatFileSize_eval floorLog_1024)
  moreover have "formatFileSize 1536 = ''1.5 KB''"
    by (simp add: formatFileSize_eval floorLog_1536)
  moreover have "formatFileSize (10 * 1024 * 1024) = ''10 MB''"
    by (simp add: formatFileSize_eval floorLog_10MiB)
  moreover have "formatFileSize 1099511627776 = ''1 undefined''"
    by (simp add: formatFileSize_eval floorLog_1TiB)
  moreover have "formatSize_spec 1099511627776 = ''1024 GB''"
    by (simp add: formatFileSize_eval floorLog_1TiB)
  ultimately show ?thesis
    by blast
qed

section \<open>The intake validator: what a call adds and reports\<close>

lemma map_snd_enumerate0: "map snd (enumerate n xs) = xs"
  by (simp add: enumerate_eq_zip)

lemma fileOf_fileObject: "fileOf (fileObject rnd url kf) = snd kf"
  by (cases kf) (simp add: fileObject_def)

lemma map_fileOf_fileObject: "map (fileOf \<circ> fileObject rnd url) (enumerate n xs) = xs"
proof -
  have "fileOf \<circ> fileObject rnd url = snd"
    by (rule ext) (simp add: fileOf_fileObject)
  then show ?thesis
    by (simp add: enumerate_eq_zip)
qed

lemma files_handleFiles:
  "files (fst (handleFiles p n rnd url newFiles st)) =
     files st @ map (fileObject rnd url)
       (enumerate 0 (slice0 (maxFiles p - int n) (filter (\<lambda>f. fst (validateFile p f)) newFiles)))"
  by (simp add: handleFiles_def Let_def)

lemma snd_handleFiles:
  "snd (handleFiles p n rnd url newFiles st) =
     concat (map (\<lambda>f. snd (validateFile p f)) newFiles) @
     (let validFiles = filter (\<lambda>f. fst (validateFile p f)) newFiles;
          filesToAdd = slice0 (maxFiles p - int n) validFiles
      in if length filesToAdd < length validFiles
         then [limitRejection (length filesToAdd) (maxFiles p)] else []) @
     (if onFilesChange p then [FilesChanged (files (fst (handleFiles p n rnd url newFiles st)))] else [])"
  by (simp add: handleFiles_def Let_def)

lemma added_handleFiles:
  "map fileOf (added st (fst (handleFiles p n rnd url newFiles st))) =
     slice0 (maxFiles p - int n) (filter (\<lambda>f. fst (validateFile p f)) newFiles)"
  by (simp add: added_def files_handleFiles map_fileOf_fileObject)

lemma accept_bound:
  assumes "int (length (files st)) \<le> maxFiles p"
  shows "int (length (files (fst (accept p b st)))) \<le> maxFiles p"
proof -
  obtain rnd url newFiles where b: "b = (rnd, url, newFiles)"
    by (cases b) auto
  let ?e = "maxFiles p - int (length (files st))"
  have "0 \<le> ?e" using assms by simp
  then have "int (length (slice0 ?e (filter (\<lambda>f. fst (validateFile p f)) newFiles))) \<le> ?e"
    by (rule length_slice0)
  then show ?thesis
    by (simp add: b accept_def files_handleFiles)
qed

lemma acceptAll_bound:
  "int (length (files st)) \<le> maxFiles p \<Longrightarrow> int (length (files (acceptAll p st bs))) \<le> maxFiles p"
proof (induction bs arbitrary: st)
  case Nil
  then show ?case by simp
next
  case (Cons b bs)
  from Cons.prems have "int (length (files (fst (accept p b st)))) \<le> maxFiles p"
    by (rule accept_bound)
  then show ?case
    using Cons.IH by simp
qed

lemma validateFile_png: "validateFile imageProps (png k) = (True, [])"
  by (simp add: validateFile_def isValidFileType_def imageProps_def png_def
      slice0_minus_one suffix_to_prefix)

section \<open>The ceiling on the pending set\<close>

text \<open>
  Calls through the handler of the latest render. Let every call of
  \<^verbatim>\<open>handleFiles\<close> see, as the \<^verbatim>\<open>files.length\<close> it closed over, the current
  count, and let \<^verbatim>\<open>maxFiles\<close> be non-negative. Then after any sequence of calls
  that starts from an empty pending set the pending set holds at most
  \<^verbatim>\<open>maxFiles\<close> entries, and so it does after one more call. When the files of that
  call that pass validation outnumber \<^verbatim>\<open>remainingSlots = maxFiles - files.length\<close>,
  exactly the first \<^verbatim>\<open>remainingSlots\<close> of them are appended, in their order, and
  the warning about the limit is logged.
\<close>

theorem handleFiles_keeps_maxFiles:
  assumes "0 \<le> maxFiles p" and "files st0 = []"
  shows
    "(let st = acceptAll p st0 bs;
          validFiles = filter (\<lambda>f. fst (validateFile p f)) newFiles;
          remainingSlots = maxFiles p - int (length (files st));
          r = accept p (rnd, url, newFiles) st
      in int (length (files st)) \<le> maxFiles p \<and>
         int (length (files (fst r))) \<le> maxFiles p \<and>
         (remainingSlots < int (length validFiles) \<longrightarrow>
            map fileOf (added st (fst r)) = take (nat remainingSlots) validFiles \<and>
            files (fst r) = files st @
              map (fileObject rnd url) (enumerate 0 (take (nat remainingSlots) validFiles)) \<and>
            limitRejection (nat remainingSlots) (maxFiles p) \<in> set (snd r)))"
proof -
  let ?st = "acceptAll p st0 bs"
  let ?v = "filter (\<lambda>f. fst (validateFile p f)) newFiles"
  let ?e = "maxFiles p - int (length (files ?st))"
  let ?r = "accept p (rnd, url, newFiles) ?st"
  have bound: "int (length (files ?st)) \<le> maxFiles p"
    using assms by (intro acceptAll_bound) simp
  then have e: "0 \<le> ?e" by simp
  have bound': "int (length (files (fst ?r))) \<le> maxFiles p"
    using bound by (rule accept_bound)
  have sl: "slice0 ?e ?v = take (nat ?e) ?v"
    using e by (rule slice0_nonneg)
  have a: "map fileOf (added ?st (fst ?r)) = take (nat ?e) ?v"
    by (simp add: accept_def added_handleFiles sl)
  have f: "files (fst ?r) = files ?st @ map (fileObject rnd url) (enumerate 0 (take (nat ?e) ?v))"
    by (simp add: accept_def files_handleFiles sl)
  have w: "limitRejection (nat ?e) (maxFiles p) \<in> set (snd ?r)" if "?e < int (length ?v)"
  proof -
    from that e have "length (take (nat ?e) ?v) = nat ?e" "nat ?e < length ?v"
      by simp_all
    then show ?thesis
      by (simp add: accept_def snd_handleFiles sl Let_def)
  qed
  show ?thesis
    unfolding Let_def using bound bound' a f w by blast
qed



theorem handleFiles_keeps_maxFiles_witness:
  "0 \<le> maxFiles imageProps \<and> files idle = [] \<and>
   maxFiles imageProps - int (length (files idle)) < int (length [png 0, png 1, png 2]) \<and>
   map fileOf
     (added idle (fst (accept imageProps (freshId 0, blobUrl 0, [png 0, png 1, png 2]) idle))) =
     [png 0, png 1] \<and>
   limitRejection 2 2 \<in>
     set (snd (accept imageProps (freshId 0, blobUrl 0, [png 0, png 1, png 2]) idle))"
  using handleFiles_keeps_maxFiles
    [of imageProps idle "[]" "[png 0, png 1, png 2]" "freshId 0" "blobUrl 0"]
  by (simp add: validateFile_png Let_def) (simp add: imageProps_def idle_def)

lemma validateFile_snapshot: "validateFile imageProps (snapshot k) = (True, [])"
  by (simp add: validateFile_def isValidFileType_def imageProps_def snapshot_def
      slice0_minus_one suffix_to_prefix)

lemma toBlobCallback_ready:
  "fst (toBlobCallback p n c (readyEnv k) rnd url st) =
     fst (stopCamera c (fst (handleFiles p n rnd url [snapshot k] st)))"
  by (simp add: toBlobCallback_def readyEnv_def snapshot_def Let_def)

lemma files_stopCamera: "files (fst (stopCamera c st)) = files st"
  by (simp add: stopCamera_def split: option.split)

lemma handleFiles_one_slot:
  "files (fst (handleFiles imageProps (Suc 0) rnd url [snapshot k] st)) =
     files st @ [fileObject rnd url (0, snapshot k)]"
proof -
  have "maxFiles imageProps - int (Suc 0) = 1"
    by (simp add: imageProps_def)
  then show ?thesis
    by (simp add: files_handleFiles validateFile_snapshot slice0_nonneg)
qed

text \<open>
  C1. The ceiling does not hold for every sequence of calls of \<^verbatim>\<open>handleFiles\<close>:
  the callback reads the \<^verbatim>\<open>files.length\<close> of the render it was created in, while
  the updater of \<^verbatim>\<open>setFiles\<close> appends to the current state. With two files
  allowed and one pending, two captures requested in one render (two clicks before
  the first \<^verbatim>\<open>toBlob\<close> callback runs) each find one remaining slot, and the pending
  set ends with three entries.
\<close>

theorem handleFiles_stale_closure_exceeds_maxFiles:
  "maxFiles imageProps = 2 \<and>
   length (files oneSlotLeft) = 1 \<and>
   snd (capturePhoto (readyEnv 1) oneSlotLeft) = [DrawImage, ToBlob] \<and>
   map fileOf (files doubleCapture) = [png 0, snapshot 1, snapshot 2] \<and>
   length (files doubleCapture) = 3"
proof -
  have a: "maxFiles imageProps = 2"
    by (simp add: imageProps_def)
  have b: "files oneSlotLeft = [shot 0 ''a'']"
    by (simp add: oneSlotLeft_def)
  have c: "snd (capturePhoto (readyEnv 1) oneSlotLeft) = [DrawImage, ToBlob]"
    by (simp add: capturePhoto_def videoMounted_def oneSlotLeft_def liveSession_def readyEnv_def)
  have d: "files doubleCapture =
     [shot 0 ''a'', fileObject (freshId 1) (blobUrl 1) (0, snapshot 1),
      fileObject (freshId 2) (blobUrl 2) (0, snapshot 2)]"
    by (simp add: doubleCapture_def toBlobCallback_ready files_stopCamera handleFiles_one_slot b)
  show ?thesis
    using a b c by (simp add: d fileOf_fileObject shot_def)
qed

section \<open>Rejections by type and by size\<close>

lemma fst_validateFile:
  "fst (validateFile p f) = (isValidFileType p f \<and> int (fileSize f) \<le> maxFileSize p)"
  by (simp add: validateFile_def)

lemma snd_validateFile:
  "snd (validateFile p f) =
     (if \<not> isValidFileType p f then [typeRejection f]
      else if maxFileSize p < int (fileSize f) then [sizeRejection f] else [])"
  by (simp add: validateFile_def)

lemma added_valid:
  assumes "e \<in> set (added st (fst (handleFiles p n rnd url newFiles st)))"
  shows "fileOf e \<in> set newFiles \<and> fst (validateFile p (fileOf e))"
proof -
  let ?ok = "\<lambda>f. fst (validateFile p f)"
  from assms have "fileOf e \<in> fileOf ` set (added st (fst (handleFiles p n rnd url newFiles st)))"
    by (rule imageI)
  then have "fileOf e \<in> set (map fileOf (added st (fst (handleFiles p n rnd url newFiles st))))"
    by (simp only: set_map)
  then have "fileOf e \<in> set (slice0 (maxFiles p - int n) (filter ?ok newFiles))"
    by (simp only: added_handleFiles)
  then have "fileOf e \<in> set (filter ?ok newFiles)"
    by (rule subsetD [OF set_slice0])
  then show ?thesis
    by (simp only: set_filter mem_Collect_eq)
qed

lemma rejection_logged:
  assumes "f \<in> set newFiles" "w \<in> set (snd (validateFile p f))"
  shows "w \<in> set (snd (handleFiles p n rnd url newFiles st))"
  using assms by (auto simp: snd_handleFiles)

lemma isValidFileType_spec:
  "isValidFileType p f = (\<exists>t \<in> set (acceptedTypes p). matches_spec t (fileType f))"
proof -
  have "(if suffix ''/*'' t then prefix (slice0 (- 1) t) ty else ty = t) = matches_spec t ty"
    for t ty :: string
    by (auto simp: matches_spec_def slice0_minus_one prefixeq_butlast)
  then show ?thesis
    by (simp add: isValidFileType_def list_ex_iff)
qed

text \<open>
  C5. A pattern matches a MIME type by equality or, when it ends in \<^verbatim>\<open>/*\<close>, by
  the type starting with the pattern up to the star; \<^verbatim>\<open>isValidFileType\<close> is
  exactly this rule over the accepted types (lemma \<open>isValidFileType_spec\<close>). For
  every file of a batch whose type matches no accepted pattern, \<^verbatim>\<open>handleFiles\<close>
  adds no entry for the file and logs the type rejection for it.
\<close>

theorem handleFiles_rejects_unmatched_type:
  assumes "f \<in> set newFiles"
    and "\<forall>t \<in> set (acceptedTypes p). \<not> matches_spec t (fileType f)"
  shows "\<not> isValidFileType p f \<and>
         f \<notin> fileOf ` set (added st (fst (handleFiles p n rnd url newFiles st))) \<and>
         typeRejection f \<in> set (snd (handleFiles p n rnd url newFiles st))"
proof -
  have inv: "\<not> isValidFileType p f"
    using assms(2) by (simp add: isValidFileType_spec)
  then have "\<not> fst (validateFile p f)"
    by (simp add: fst_validateFile)
  then have "f \<notin> fileOf ` set (added st (fst (handleFiles p n rnd url newFiles st)))"
    using added_valid by blast
  moreover have "typeRejection f \<in> set (snd (validateFile p f))"
    using inv by (simp add: snd_validateFile)
  then have "typeRejection f \<in> set (snd (handleFiles p n rnd url newFiles st))"
    using assms(1) by (rule rejection_logged [rotated])
  ultimately show ?thesis
    using inv by blast
qed

theorem handleFiles_rejects_unmatched_type_witness:
  "pdf \<in> set [png 0, pdf] \<and>
   \<not> matches_spec ''image/*'' (fileType pdf) \<and>
   pdf \<notin> fileOf ` set (added idle (fst (handleFiles imageProps 0 (freshId 0) (blobUrl 0) [png 0, pdf] idle))) \<and>
   typeRejection pdf \<in> set (snd (handleFiles imageProps 0 (freshId 0) (blobUrl 0) [png 0, pdf] idle))"
proof -
  have m: "pdf \<in> set [png 0, pdf]"
    by simp
  have h0: "\<not> matches_spec ''image/*'' (fileType pdf)"
    by (simp add: pdf_def matches_spec_def)
  then have h: "\<forall>t \<in> set (acceptedTypes imageProps). \<not> matches_spec t (fileType pdf)"
    by (simp add: imageProps_def)
  show ?thesis
    using m h0 handleFiles_rejects_unmatched_type [OF m h, of idle 0 "freshId 0" "blobUrl 0"]
    by blast
qed

lemma oversized_batch:
  assumes "\<forall>f \<in> set newFiles. maxFileSize p < int (fileSize f)"
  shows "filter (\<lambda>f. fst (validateFile p f)) newFiles = []"
    and "concat (map (\<lambda>f. snd (validateFile p f)) newFiles) =
         map (\<lambda>f. if isValidFileType p f then sizeRejection f else typeRejection f) newFiles"
  using assms by (induction newFiles) (auto simp: fst_validateFile snd_validateFile)

lemma slice0_Nil: "slice0 e [] = []"
  by (simp add: slice0_def)

lemma validateFile_hugePng: "validateFile imageProps hugePng = (False, [sizeRejection hugePng])"
  by (simp add: validateFile_def isValidFileType_def imageProps_def hugePng_def
      slice0_minus_one suffix_to_prefix)

text \<open>
  C3, as claimed, fails in one point: \<^verbatim>\<open>setFiles\<close> is called whatever the batch
  holds, and its updater calls \<^verbatim>\<open>onFilesChange\<close>. A batch of one oversized image
  leaves the pending set as it was and logs the size rejection, and the observer is
  called with the unchanged pending set.
\<close>

theorem handleFiles_oversized_notifies_observer:
  "maxFileSize imageProps < int (fileSize hugePng) \<and>
   handleFiles imageProps 0 (freshId 0) (blobUrl 0) [hugePng] idle =
     (idle, [sizeRejection hugePng, FilesChanged []])"
  by (simp add: handleFiles_def Let_def validateFile_hugePng slice0_Nil)
     (simp add: imageProps_def hugePng_def idle_def)


text \<open>
  C3, amended. For every file larger than \<^verbatim>\<open>maxFileSize\<close>, \<^verbatim>\<open>handleFiles\<close>
  adds no entry. For a batch of such files only, the state is left as it was; the
  log holds, for each file in order, the size rejection when its type is accepted
  and the type rejection otherwise; and \<^verbatim>\<open>onFilesChange\<close>, when supplied, is
  called once, with the unchanged pending set.
\<close>

theorem handleFiles_oversized:
  "(\<forall>f :: rawFile. maxFileSize p < int (fileSize f) \<longrightarrow>
        f \<notin> fileOf ` set (added st (fst (handleFiles p n rnd url newFiles st)))) \<and>
   ((\<forall>f \<in> set newFiles. maxFileSize p < int (fileSize f)) \<longrightarrow>
      fst (handleFiles p n rnd url newFiles st) = st \<and>
      snd (handleFiles p n rnd url newFiles st) =
        map (\<lambda>f. if isValidFileType p f then sizeRejection f else typeRejection f) newFiles @
        (if onFilesChange p then [FilesChanged (files st)] else []))"
proof (intro conjI allI impI)
  fix f :: rawFile
  assume "maxFileSize p < int (fileSize f)"
  then have "\<not> fst (validateFile p f)"
    by (simp add: fst_validateFile)
  then show "f \<notin> fileOf ` set (added st (fst (handleFiles p n rnd url newFiles st)))"
    using added_valid by blast
next
  assume all: "\<forall>f \<in> set newFiles. maxFileSize p < int (fileSize f)"
  show "fst (handleFiles p n rnd url newFiles st) = st"
    by (simp add: handleFiles_def Let_def oversized_batch(1) [OF all] slice0_Nil)
  show "snd (handleFiles p n rnd url newFiles st) =
        map (\<lambda>f. if isValidFileType p f then sizeRejection f else typeRejection f) newFiles @
        (if onFilesChange p then [FilesChanged (files st)] else [])"
    by (simp add: handleFiles_def Let_def oversized_batch [OF all] slice0_Nil)
qed


theorem handleFiles_oversized_witness:
  "maxFileSize imageProps < int (fileSize hugePng) \<and>
   hugePng \<notin> fileOf ` set (added idle (fst (handleFiles imageProps 0 (freshId 0) (blobUrl 0) [hugePng, png 1] idle))) \<and>
   fst (handleFiles imageProps 0 (freshId 0) (blobUrl 0) [hugePng] idle) = idle"
  using handleFiles_oversized [of imageProps idle 0 "freshId 0" "blobUrl 0" "[hugePng, png 1]"]
    handleFiles_oversized [of imageProps idle 0 "freshId 0" "blobUrl 0" "[hugePng]"]
  by (simp add: imageProps_def hugePng_def)

lemma validateFile_fullPng: "validateFile imageProps fullPng = (True, [])"
  by (simp add: validateFile_def isValidFileType_def imageProps_def fullPng_def
      slice0_minus_one suffix_to_prefix)

text \<open>
  C10. The size check is strict: a file whose size equals \<^verbatim>\<open>maxFileSize\<close> and
  whose type is accepted passes validation without a warning, and it is added
  whenever the files before it in the batch that pass validation are fewer than the
  remaining slots \<^verbatim>\<open>maxFiles - files.length\<close> the call computes.
\<close>

theorem handleFiles_accepts_size_at_limit:
  assumes "int (fileSize f) = maxFileSize p"
    and "isValidFileType p f"
    and "int (length (filter (\<lambda>g. fst (validateFile p g)) pre)) < maxFiles p - int n"
  shows "validateFile p f = (True, []) \<and>
         f \<in> fileOf ` set (added st (fst (handleFiles p n rnd url (pre @ f # post) st)))"
proof -
  let ?ok = "\<lambda>g. fst (validateFile p g)"
  let ?e = "maxFiles p - int n"
  have v: "validateFile p f = (True, [])"
    using assms(1,2) by (simp add: validateFile_def)
  have e: "0 \<le> ?e" "length (filter ?ok pre) < nat ?e"
    using assms(3) by simp_all
  have "filter ?ok (pre @ f # post) = filter ?ok pre @ f # filter ?ok post"
    using v by simp
  then have "slice0 ?e (filter ?ok (pre @ f # post)) =
             take (nat ?e) (filter ?ok pre @ f # filter ?ok post)"
    using e(1) by (simp add: slice0_nonneg)
  also have "\<dots> = filter ?ok pre @ f # take (nat ?e - Suc (length (filter ?ok pre))) (filter ?ok post)"
    using e(2) by (simp add: take_Cons')
  finally have "f \<in> set (slice0 ?e (filter ?ok (pre @ f # post)))"
    by simp
  then have "f \<in> set (map fileOf (added st (fst (handleFiles p n rnd url (pre @ f # post) st))))"
    by (simp only: added_handleFiles)
  then have "f \<in> fileOf ` set (added st (fst (handleFiles p n rnd url (pre @ f # post) st)))"
    by (simp only: set_map)
  with v show ?thesis by blast
qed


theorem handleFiles_accepts_size_at_limit_witness:
  "int (fileSize fullPng) = maxFileSize imageProps \<and> isValidFileType imageProps fullPng \<and>
   int (length (filter (\<lambda>g. fst (validateFile imageProps g)) [pdf])) <
     maxFiles imageProps - int 0 \<and>
   fullPng \<in> fileOf ` set (added idle
     (fst (handleFiles imageProps 0 (freshId 0) (blobUrl 0) ([pdf] @ fullPng # [png 1]) idle)))"
proof -
  have h1: "int (fileSize fullPng) = maxFileSize imageProps"
    by (simp add: fullPng_def imageProps_def)
  have h2: "isValidFileType imageProps fullPng"
    by (simp add: isValidFileType_def imageProps_def fullPng_def slice0_minus_one suffix_to_prefix)
  have h3: "int (length (filter (\<lambda>g. fst (validateFile imageProps g)) [pdf])) <
     maxFiles imageProps - int 0"
    by (simp add: imageProps_def)
  show ?thesis
    using h1 h2 h3 handleFiles_accepts_size_at_limit [OF h1 h2 h3, of idle "freshId 0" "blobUrl 0" "[png 1]"]
    by blast
qed

section \<open>Removing an entry\<close>

lemma find_filter_None: "find (\<lambda>f. ident f = i) (filter (\<lambda>f. ident f \<noteq> i) xs) = None"
  by (simp add: find_None_iff)

lemma filter_absent: "i \<notin> ident ` set xs \<Longrightarrow> filter (\<lambda>f. ident f \<noteq> i) xs = xs"
  by (induction xs) auto

lemma find_absent: "i \<notin> ident ` set xs \<Longrightarrow> find (\<lambda>f. ident f = i) xs = None"
  by (auto simp: find_None_iff)

text \<open>
  C6, as claimed, fails in one point: neither the second removal nor the removal of
  an identifier that no entry carries is a call without effect. \<^verbatim>\<open>removeFile\<close>
  calls \<^verbatim>\<open>onFilesChange\<close> whatever it found (lines 260-262), so the observer is
  notified with the unchanged pending set both times.
\<close>

theorem removeFile_absent_notifies_observer:
  "''zz'' \<notin> ident ` set (files twoPending) \<and>
   removeFile imageProps ''zz'' twoPending =
     (twoPending, [FilesChanged [shot 0 ''a'', shot 1 ''b'']]) \<and>
   removeFile imageProps ''a'' (fst (removeFile imageProps ''a'' twoPending)) =
     (fst (removeFile imageProps ''a'' twoPending), [FilesChanged [shot 1 ''b'']])"
proof -
  have o: "onFilesChange imageProps"
    by (simp add: imageProps_def)
  have a: "''zz'' \<notin> ident ` set (files twoPending)"
    by (simp add: twoPending_def shot_def fileObject_def)
  have b: "removeFile imageProps ''zz'' twoPending =
     (twoPending, [FilesChanged [shot 0 ''a'', shot 1 ''b'']])"
    by (simp add: removeFile_def Let_def o twoPending_def shot_def fileObject_def)
  have c: "removeFile imageProps ''a'' (fst (removeFile imageProps ''a'' twoPending)) =
     (fst (removeFile imageProps ''a'' twoPending), [FilesChanged [shot 1 ''b'']])"
    by (simp add: removeFile_def Let_def o twoPending_def shot_def fileObject_def)
  show ?thesis
    using a b c by blast
qed

text \<open>
  C6, amended. Removing the same identifier twice leaves the state that removing it
  once leaves: the second call of \<^verbatim>\<open>removeFile\<close> leaves the pending set unchanged
  and revokes no object URL. Removing an identifier that no entry carries leaves the
  state unchanged and revokes nothing. In both cases the call does one thing: it
  calls \<^verbatim>\<open>onFilesChange\<close>, when supplied, once, with the unchanged pending set.
  \<^verbatim>\<open>removeFile\<close> has no failing branch.
\<close>

theorem removeFile_idempotent:
  "fst (removeFile p i (fst (removeFile p i st))) = fst (removeFile p i st) \<and>
   snd (removeFile p i (fst (removeFile p i st))) =
     (if onFilesChange p then [FilesChanged (files (fst (removeFile p i st)))] else []) \<and>
   (\<forall>u. RevokeObjectURL u \<notin> set (snd (removeFile p i (fst (removeFile p i st))))) \<and>
   (i \<notin> ident ` set (files st) \<longrightarrow>
      fst (removeFile p i st) = st \<and>
      snd (removeFile p i st) = (if onFilesChange p then [FilesChanged (files st)] else []) \<and>
      (\<forall>u. RevokeObjectURL u \<notin> set (snd (removeFile p i st))))"
proof -
  have a: "fst (removeFile p i (fst (removeFile p i st))) = fst (removeFile p i st)"
    by (simp add: removeFile_def Let_def)
  have b: "snd (removeFile p i (fst (removeFile p i st))) =
     (if onFilesChange p then [FilesChanged (files (fst (removeFile p i st)))] else [])"
    by (simp add: removeFile_def Let_def find_filter_None)
  have c: "\<forall>u. RevokeObjectURL u \<notin> set (snd (removeFile p i (fst (removeFile p i st))))"
    by (simp add: b)
  have d: "fst (removeFile p i st) = st \<and>
           snd (removeFile p i st) = (if onFilesChange p then [FilesChanged (files st)] else []) \<and>
           (\<forall>u. RevokeObjectURL u \<notin> set (snd (removeFile p i st)))"
    if "i \<notin> ident ` set (files st)"
    using that by (simp add: removeFile_def Let_def filter_absent find_absent)
  show ?thesis
    using a b c d by blast
qed

theorem removeFile_idempotent_witness:
  "''zz'' \<notin> ident ` set (files (idle\<lparr>files := [shot 0 ''a'', shot 1 ''b'']\<rparr>)) \<and>
   fst (removeFile imageProps ''zz'' (idle\<lparr>files := [shot 0 ''a'', shot 1 ''b'']\<rparr>)) =
     idle\<lparr>files := [shot 0 ''a'', shot 1 ''b'']\<rparr> \<and>
   fst (removeFile imageProps ''a''
         (fst (removeFile imageProps ''a'' (idle\<lparr>files := [shot 0 ''a'', shot 1 ''b'']\<rparr>)))) =
     fst (removeFile imageProps ''a'' (idle\<lparr>files := [shot 0 ''a'', shot 1 ''b'']\<rparr>)) \<and>
   snd (removeFile imageProps ''a''
         (fst (removeFile imageProps ''a'' (idle\<lparr>files := [shot 0 ''a'', shot 1 ''b'']\<rparr>)))) =
     [FilesChanged [shot 1 ''b'']]"
proof -
  let ?st = "idle\<lparr>files := [shot 0 ''a'', shot 1 ''b'']\<rparr>"
  have h: "''zz'' \<notin> ident ` set (files ?st)"
    by (simp add: shot_def fileObject_def)
  have f: "files (fst (removeFile imageProps ''a'' ?st)) = [shot 1 ''b'']"
    by (simp add: removeFile_def Let_def shot_def fileObject_def)
  have o: "onFilesChange imageProps"
    by (simp add: imageProps_def)
  show ?thesis
    using h f o removeFile_idempotent [of imageProps "''zz''" ?st]
      removeFile_idempotent [of imageProps "''a''" ?st]
    by simp
qed

section \<open>Capturing before the camera is ready\<close>

text \<open>
  C7, as claimed, fails in one point: the canvas context is checked before the frame
  dimensions, so a capture on a live session with zero dimensions and no 2D context
  reports that the canvas is not supported, not that the camera is not ready.
\<close>

theorem capturePhoto_without_context:
  "live liveSession \<and> videoWidth noContextEnv = 0 \<and>
   capturePhoto noContextEnv liveSession =
     (liveSession,
      [ConsoleError ''Unable to get canvas context'',
       Alert ''Unable to capture photo. Canvas not supported.''])"
  by (simp add: capturePhoto_def videoMounted_def live_def liveSession_def noContextEnv_def)

text \<open>
  C7, amended. On a live session whose video width or height is 0, a capture leaves
  the whole state as it was and never reaches \<^verbatim>\<open>toBlob\<close> (no file is produced, the
  pending set is untouched, the stream is kept and not stopped, the session stays
  live) and reports one error to the user: that the camera is not ready when the
  canvas gives a 2D context, and that the canvas is not supported when it gives
  none.
\<close>

theorem capturePhoto_zero_dimensions:
  assumes "live st" and "videoWidth env = 0 \<or> videoHeight env = 0"
  shows "fst (capturePhoto env st) = st \<and>
         live (fst (capturePhoto env st)) \<and>
         snd (capturePhoto env st) =
           (if context2d env
            then [Alert ''Camera not ready yet. Please wait a moment and try again.'']
            else [ConsoleError ''Unable to get canvas context'',
                  Alert ''Unable to capture photo. Canvas not supported.''])"
proof -
  from assms(1) have "videoMounted st"
    by (simp add: live_def videoMounted_def)
  with assms show ?thesis
    by (simp add: capturePhoto_def)
qed

theorem capturePhoto_zero_dimensions_witness:
  "live liveSession \<and> (videoWidth notReadyEnv = 0 \<or> videoHeight notReadyEnv = 0) \<and>
   capturePhoto notReadyEnv liveSession =
     (liveSession, [Alert ''Camera not ready yet. Please wait a moment and try again.''])"
proof -
  have h1: "live liveSession"
    by (simp add: live_def liveSession_def)
  have h2: "videoWidth notReadyEnv = 0 \<or> videoHeight notReadyEnv = 0"
    by (simp add: notReadyEnv_def)
  have c: "context2d notReadyEnv"
    by (simp add: notReadyEnv_def)
  show ?thesis
    using h1 h2 c capturePhoto_zero_dimensions [OF h1 h2]
    by (simp add: prod_eq_iff)
qed

section \<open>A failing upload\<close>

text \<open>
  C8. When the supplied \<^verbatim>\<open>onUpload\<close> throws on the pending set, \<^verbatim>\<open>handleUpload\<close>
  leaves the pending set exactly as it was, and whenever it has called
  \<^verbatim>\<open>onUpload\<close> it reports the failure by an alert. It calls \<^verbatim>\<open>onUpload\<close>
  exactly when the pending set is not empty (the upload button exists only then, and
  line 277 returns at once otherwise); the exception is then caught, logged and
  reported, and nothing else happens.
\<close>

theorem handleUpload_failure_keeps_files:
  assumes "onUpload p = Some f" and "f (files st) = Rejected e"
  shows "files (fst (handleUpload p st)) = files st \<and>
         fst (handleUpload p st) = (if files st = [] then st else st\<lparr>isUploading := False\<rparr>) \<and>
         (UploadCalled (files st) \<in> set (snd (handleUpload p st)) \<longrightarrow>
            Alert ''Upload failed. Please try again.'' \<in> set (snd (handleUpload p st))) \<and>
         (files st \<noteq> [] \<longrightarrow>
            snd (handleUpload p st) =
              [UploadCalled (files st), ConsoleError (''Upload error: '' @ e),
               Alert ''Upload failed. Please try again.''])"
  using assms by (simp add: handleUpload_def)

theorem handleUpload_failure_keeps_files_witness:
  "onUpload failingProps = Some (\<lambda>_. Rejected ''offline'') \<and>
   files (fst (handleUpload failingProps (idle\<lparr>files := [shot 0 ''a'']\<rparr>))) = [shot 0 ''a''] \<and>
   snd (handleUpload failingProps (idle\<lparr>files := [shot 0 ''a'']\<rparr>)) =
     [UploadCalled [shot 0 ''a''], ConsoleError ''Upload error: offline'',
      Alert ''Upload failed. Please try again.'']"
proof -
  have h1: "onUpload failingProps = Some (\<lambda>_. Rejected ''offline'')"
    by (simp add: failingProps_def)
  have h2: "(\<lambda>_. Rejected ''offline'') (files (idle\<lparr>files := [shot 0 ''a'']\<rparr>)) = Rejected ''offline''"
    by simp
  show ?thesis
    using h1 handleUpload_failure_keeps_files [OF h1 h2]
    by simp
qed

section \<open>Identifiers\<close>

text \<open>
  C9. The identifier of an entry is what \<^verbatim>\<open>Math.random\<close> yields at intake, with
  no check against the identifiers in use. When two intakes draw the same string,
  two pending entries carry one identifier, and \<^verbatim>\<open>removeFile\<close> of it removes both
  of them while revoking the object URL of the first only.
\<close>

theorem handleFiles_identifier_collision:
  "map ident (files (acceptAll imageProps idle
       [(stuckId, blobUrl 0, [png 0]), (stuckId, blobUrl 1, [png 1])])) = [''i'', ''i''] \<and>
   map fileOf (files (acceptAll imageProps idle
       [(stuckId, blobUrl 0, [png 0]), (stuckId, blobUrl 1, [png 1])])) = [png 0, png 1] \<and>
   removeFile imageProps ''i'' (acceptAll imageProps idle
       [(stuckId, blobUrl 0, [png 0]), (stuckId, blobUrl 1, [png 1])]) =
     (idle, [RevokeObjectURL (blobUrl 0 0), FilesChanged []])"
proof -
  let ?st = "acceptAll imageProps idle
       [(stuckId, blobUrl 0, [png 0]), (stuckId, blobUrl 1, [png 1])]"
  have m: "maxFiles imageProps = 2" "onFilesChange imageProps"
    by (simp_all add: imageProps_def)
  have f: "files ?st = [fileObject stuckId (blobUrl 0) (0, png 0), fileObject stuckId (blobUrl 1) (0, png 1)]"
    by (simp add: accept_def files_handleFiles validateFile_png m slice0_nonneg idle_def)
  have s: "?st = idle\<lparr>files := files ?st\<rparr>"
    by (simp add: accept_def handleFiles_def Let_def idle_def)
  have r: "removeFile imageProps ''i'' ?st = (idle, [RevokeObjectURL (blobUrl 0 0), FilesChanged []])"
    apply (subst s)
    apply (simp only: removeFile_def Let_def f)
    apply (simp add: fileObject_def stuckId_def m idle_def)
    done
  show ?thesis
    using f r by (simp add: fileObject_def stuckId_def)
qed

text \<open>
  What does hold. While the identifiers in the pending set differ from one another,
  \<^verbatim>\<open>removeFile\<close> of an entry's identifier removes that entry and no other, and
  revokes its object URL.
\<close>

lemma removeFile_distinct_ident:
  assumes "distinct (map ident (files st))" and "e \<in> set (files st)"
  shows "files (fst (removeFile p (ident e) st)) = remove1 e (files st) \<and>
         RevokeObjectURL (preview e) \<in> set (snd (removeFile p (ident e) st))"
proof -
  have "filter (\<lambda>f. ident f \<noteq> ident e) xs = remove1 e xs \<and>
        find (\<lambda>f. ident f = ident e) xs = Some e"
    if "distinct (map ident xs)" "e \<in> set xs" for xs
    using that
  proof (induction xs)
    case Nil
    then show ?case by simp
  next
    case (Cons x xs)
    show ?case
    proof (cases "x = e")
      case True
      with Cons.prems have "ident e \<notin> ident ` set xs"
        by simp
      then have "filter (\<lambda>f. ident f \<noteq> ident e) xs = xs"
        by (rule filter_absent)
      with True show ?thesis
        by simp
    next
      case False
      with Cons.prems have "e \<in> set xs" "ident x \<noteq> ident e"
        by auto
      with Cons.IH Cons.prems False show ?thesis
        by simp
    qed
  qed
  from this [OF assms] show ?thesis
    by (simp add: removeFile_def Let_def)
qed

text \<open>
  Entries are never rewritten: \<^verbatim>\<open>handleFiles\<close> keeps the pending set as a prefix
  of the new one, and \<^verbatim>\<open>removeFile\<close> only drops entries. So an entry keeps its
  identifier for as long as it is pending.
\<close>

lemma handleFiles_keeps_entries:
  "take (length (files st)) (files (fst (handleFiles p n rnd url newFiles st))) = files st"
  by (simp add: files_handleFiles)

lemma removeFile_keeps_entries:
  "set (files (fst (removeFile p i st))) \<subseteq> set (files st)"
  by (simp add: removeFile_def Let_def)

section \<open>Cancelling while the camera is being acquired\<close>

text \<open>
  C2. \<^verbatim>\<open>stopCamera\<close> between \<^verbatim>\<open>startCamera\<close> and the resolution of
  \<^verbatim>\<open>getUserMedia\<close> finds no stream and only hides the modal. When the stream
  arrives, it is stored in the state and its tracks are not stopped; the timer
  callback finds no preview element, so the stream is not bound to the preview. The
  component is left with the modal hidden and a running stream.
\<close>

theorem stopCamera_while_acquiring_keeps_late_stream:
  "stream (fst (startCamera True idle)) = None \<and>
   stopCamera None (fst (startCamera True idle)) = (idle, []) \<and>
   cancelledWhileAcquiring = idle \<and>
   startCamera_resolved 7 cancelledWhileAcquiring =
     (idle\<lparr>stream := Some 7\<rparr>, [SetTimeout 7]) \<and>
   startCamera_timeout 7 (fst (startCamera_resolved 7 cancelledWhileAcquiring)) =
     (idle\<lparr>stream := Some 7\<rparr>, []) \<and>
   stream (fst (startCamera_resolved 7 cancelledWhileAcquiring)) = Some 7 \<and>
   showCamera (fst (startCamera_resolved 7 cancelledWhileAcquiring)) = False"
  by (simp add: cancelledWhileAcquiring_def startCamera_def stopCamera_def
      startCamera_resolved_def startCamera_timeout_def videoMounted_def idle_def)

end
